theory Spec2Isabelle
  imports Main
begin

section \<open>Errors and tensors\<close>

text \<open>
  The exceptions the modelled Python code can raise. A raise is the value \<open>Inl e\<close> of a
  result type \<open>error + 'a\<close>.
\<close>

datatype error =
  KeyError string
  | ValueError
  | InvalidArgumentError
  | JSONDecodeError
  | RecursionError
  | TypeError
  | ArgumentError string
  | SystemExit int

text \<open>
  A dense tensor as TensorFlow holds it: its shape and its elements in row-major order.
  The element type is a parameter; where arithmetic is done on elements (the toy model)
  it is a commutative semiring, which abstracts float32 by exact arithmetic.
\<close>

record 'a tensor =
  shape :: "nat list"
  data :: "'a list"

text \<open>\<open>tf.convert_to_tensor\<close> on a nested Python list of depth two; a ragged list is refused.\<close>

definition convert_to_tensor :: "'a list list \<Rightarrow> error + 'a tensor" where
  "convert_to_tensor rows =
     (case rows of
        [] \<Rightarrow> Inr \<lparr>shape = [0], data = []\<rparr>
      | r # rs \<Rightarrow>
          if list_all (\<lambda>q. length q = length r) rs
          then Inr \<lparr>shape = [length rows, length r], data = concat rows\<rparr>
          else Inl ValueError)"

section \<open>The toy model (ecoroar/model/simple\_test\_model.py)\<close>

definition default_embedding :: "'a::comm_semiring_1 list list" where
  "default_embedding = [[0, 1], [0, 1], [0, 0], [1, 0], [0, 1]]"

definition defalt_kernel :: "'a::comm_semiring_1 list list" where
  "defalt_kernel = [[1, 0, 1], [0, 1, 1]]"

record 'a SimpleOutput =
  logits :: "'a tensor"

text \<open>
  The model object: the weights of its Embedding layer (shape \<open>[input_dim, output_dim]\<close>)
  and of its bias-free Dense layer (shape \<open>[output_dim, units]\<close>).
\<close>

record 'a SimpleTestModel =
  embeddings :: "'a tensor"
  kernel :: "'a tensor"

text \<open>
  The input dictionary. A key that is absent is \<open>None\<close>; a TokenizedDict has
  \<open>input_ids\<close> and \<open>attention_mask\<close>, an EmbeddingDict has \<open>inputs_embeds\<close> and
  \<open>attention_mask\<close>.
\<close>

record 'a inputs =
  input_ids :: "int tensor option"
  attention_mask :: "int tensor option"
  inputs_embeds :: "'a tensor option"

text \<open>
  The Embedding layer: every token id selects a row of the weight matrix, so the result has
  the shape of the ids with the embedding width appended. An id outside the vocabulary
  raises (TensorFlow's gather on the CPU).
\<close>

definition embedding_layer :: "'a tensor \<Rightarrow> int tensor \<Rightarrow> error + 'a tensor" where
  "embedding_layer w ids =
     (case shape w of
        [v, d] \<Rightarrow>
          if list_all (\<lambda>t. 0 \<le> t \<and> t < int v) (data ids)
          then Inr \<lparr>shape = shape ids @ [d],
                    data = concat (map (\<lambda>t. take d (drop (nat t * d) (data w))) (data ids))\<rparr>
          else Inl InvalidArgumentError
      | _ \<Rightarrow> Inl ValueError)"

text \<open>\<open>z * z\<close>: the element-wise product of two tensors of one shape.\<close>

definition tensor_mul :: "'a::comm_semiring_1 tensor \<Rightarrow> 'a tensor \<Rightarrow> error + 'a tensor" where
  "tensor_mul a b =
     (if shape a = shape b
      then Inr \<lparr>shape = shape a, data = map2 (*) (data a) (data b)\<rparr>
      else Inl InvalidArgumentError)"

text \<open>
  \<open>tf.math.reduce_sum(z, axis=1)\<close>: a tensor of shape \<open>b # t # rest\<close> becomes one of shape
  \<open>b # rest\<close>, each element the sum over the second axis.
\<close>

definition reduce_sum_axis1 :: "'a::comm_semiring_1 tensor \<Rightarrow> error + 'a tensor" where
  "reduce_sum_axis1 z =
     (case shape z of
        b # t # rest \<Rightarrow>
          let r = prod_list rest in
          Inr \<lparr>shape = b # rest,
               data = concat (map (\<lambda>i. map (\<lambda>k. sum_list (map (\<lambda>j. data z ! ((i * t + j) * r + k)) [0..<t]))
                                            [0..<r])
                                 [0..<b])\<rparr>
      | _ \<Rightarrow> Inl InvalidArgumentError)"

text \<open>
  The Dense layer without bias: the last axis of the input, of width \<open>d\<close>, is multiplied
  by the \<open>[d, units]\<close> kernel. The layer wants an input of rank two or more whose last
  axis has the kernel's height.
\<close>

definition dense_layer :: "'a::comm_semiring_1 tensor \<Rightarrow> 'a tensor \<Rightarrow> error + 'a tensor" where
  "dense_layer w z =
     (case shape w of
        [d, u] \<Rightarrow>
          if 2 \<le> length (shape z) \<and> last (shape z) = d
          then let n = prod_list (butlast (shape z)) in
               Inr \<lparr>shape = butlast (shape z) @ [u],
                    data = concat (map (\<lambda>i. map (\<lambda>k. sum_list (map (\<lambda>j. data z ! (i * d + j) * data w ! (j * u + k)) [0..<d]))
                                                 [0..<u])
                                      [0..<n])\<rparr>
          else Inl ValueError
      | _ \<Rightarrow> Inl ValueError)"

text \<open>\<open>SimpleTestModel.inputs_embeds\<close>: the embeddings of the ids, and the mask handed on.\<close>

definition inputs_embeds_of :: "'a SimpleTestModel \<Rightarrow> 'a inputs \<Rightarrow> error + 'a inputs" where
  "inputs_embeds_of m x =
     (case input_ids x of
        None \<Rightarrow> Inl (KeyError ''input_ids'')
      | Some ids \<Rightarrow>
          (case embedding_layer (embeddings m) ids of
             Inl e \<Rightarrow> Inl e
           | Inr z \<Rightarrow>
               (case attention_mask x of
                  None \<Rightarrow> Inl (KeyError ''attention_mask'')
                | Some am \<Rightarrow>
                    Inr \<lparr>input_ids = None, attention_mask = Some am, inputs_embeds = Some z\<rparr>)))"

text \<open>\<open>SimpleTestModel.call\<close>.\<close>

definition call :: "'a::comm_semiring_1 SimpleTestModel \<Rightarrow> 'a inputs \<Rightarrow> error + 'a SimpleOutput" where
  "call m inputs =
     (case (if inputs_embeds inputs = None then inputs_embeds_of m inputs else Inr inputs) of
        Inl e \<Rightarrow> Inl e
      | Inr x \<Rightarrow>
          (case inputs_embeds x of
             None \<Rightarrow> Inl (KeyError ''inputs_embeds'')
           | Some z \<Rightarrow>
               (case tensor_mul z z of
                  Inl e \<Rightarrow> Inl e
                | Inr z2 \<Rightarrow>
                    (case reduce_sum_axis1 z2 of
                       Inl e \<Rightarrow> Inl e
                     | Inr z3 \<Rightarrow>
                         (case dense_layer (kernel m) z3 of
                            Inl e \<Rightarrow> Inl e
                          | Inr z4 \<Rightarrow> Inr \<lparr>logits = z4\<rparr>)))))"

text \<open>
  The constructor: both initializers become tensors, and with \<open>auto_initialize\<close> the model
  is called once on the ids \<open>[[0, 0]]\<close>, which is where a kernel that does not fit the
  embedding width is refused.
\<close>

definition SimpleTestModel_init ::
  "'a::comm_semiring_1 list list \<Rightarrow> 'a list list \<Rightarrow> bool \<Rightarrow> error + 'a SimpleTestModel" where
  "SimpleTestModel_init embeddings_initializer kernel_initializer auto_initialize =
     (case convert_to_tensor embeddings_initializer of
        Inl e \<Rightarrow> Inl e
      | Inr ew \<Rightarrow>
          (case convert_to_tensor kernel_initializer of
             Inl e \<Rightarrow> Inl e
           | Inr kw \<Rightarrow>
               if length (shape ew) = 2 \<and> length (shape kw) = 2
               then let m = \<lparr>embeddings = ew, kernel = kw\<rparr> in
                    if auto_initialize
                    then (case call m \<lparr>input_ids = Some \<lparr>shape = [1, 2], data = [0, 0]\<rparr>,
                                       attention_mask = Some \<lparr>shape = [1, 2], data = [1, 1]\<rparr>,
                                       inputs_embeds = None\<rparr> of
                            Inl e \<Rightarrow> Inl e
                          | Inr _ \<Rightarrow> Inr m)
                    else Inr m
               else Inl ValueError))"

text \<open>
  The claim's reading of the model, written from its words: the embedding \<open>e t\<close> of a
  token is row \<open>t\<close> of the 5x2 matrix, squared element-wise, the squares are summed over
  the positions of the sequence, and the sum is multiplied by the 2x3 kernel.
\<close>

definition matrix_tensor :: "nat \<Rightarrow> 'a list list \<Rightarrow> 'a tensor" where
  "matrix_tensor w rows = \<lparr>shape = [length rows, w], data = concat rows\<rparr>"

definition vec_square :: "'a::comm_semiring_1 list \<Rightarrow> 'a list" where
  "vec_square v = map (\<lambda>x. x * x) v"

definition vec_sum :: "nat \<Rightarrow> 'a::comm_semiring_1 list list \<Rightarrow> 'a list" where
  "vec_sum d vs = foldr (map2 (+)) vs (replicate d 0)"

definition vec_mat :: "'a::comm_semiring_1 list \<Rightarrow> 'a list list \<Rightarrow> nat \<Rightarrow> 'a list" where
  "vec_mat v k u = map (\<lambda>c. sum_list (map (\<lambda>j. v ! j * k ! j ! c) [0..<length k])) [0..<u]"

definition toy_logits :: "int list \<Rightarrow> 'a::comm_semiring_1 list" where
  "toy_logits ts =
     vec_mat (vec_sum 2 (map (\<lambda>t. vec_square (default_embedding ! nat t)) ts)) defalt_kernel 3"

section \<open>The AUROC metric (ecoroar/metric/auroc.py)\<close>

text \<open>
  \<open>tf.ensure_shape(x, shape)\<close>: the tensor itself when its shape is compatible with the
  wanted one (\<open>None\<close> is a dimension of any size), an error otherwise.
\<close>

definition ensure_shape :: "'a tensor \<Rightarrow> nat option list \<Rightarrow> error + 'a tensor" where
  "ensure_shape x wanted =
     (if list_all2 (\<lambda>d w. case w of None \<Rightarrow> True | Some n \<Rightarrow> d = n) (shape x) wanted
      then Inr x
      else Inl InvalidArgumentError)"

text \<open>
  The slice \<open>x[:, j]\<close> of a tensor of shape \<open>n # c # rest\<close>: index \<open>j\<close> on the second
  axis, everything on the others, of shape \<open>n # rest\<close>.
\<close>

definition slice_column :: "'a tensor \<Rightarrow> nat \<Rightarrow> error + 'a tensor" where
  "slice_column x j =
     (case shape x of
        n # c # rest \<Rightarrow>
          if j < c
          then let r = prod_list rest in
               Inr \<lparr>shape = n # rest,
                    data = concat (map (\<lambda>i. map (\<lambda>k. data x ! ((i * c + j) * r + k)) [0..<r]) [0..<n])\<rparr>
          else Inl InvalidArgumentError
      | _ \<Rightarrow> Inl InvalidArgumentError)"

text \<open>
  Where an exception of \<open>AUROC.update_state\<close> was raised: at its own shape check, at its
  slice, or inside the \<open>update_state\<close> of the parent class.
\<close>

datatype 'e raised = AtShapeCheck error | AtSlice error | InSuper 'e

text \<open>
  \<open>AUROC.update_state\<close>. The parent class \<open>tf.keras.metrics.AUC\<close> is TensorFlow's own, so
  its \<open>update_state\<close> is a parameter: any function from the accumulated state, the labels,
  a prediction tensor and the optional weights to the new state and the exception it
  raised, if any. The metric's state is passed explicitly; a raise before the call of the
  parent leaves it as it was.
\<close>

definition update_state ::
  "('s \<Rightarrow> 'l tensor \<Rightarrow> 'a tensor \<Rightarrow> 'w tensor option \<Rightarrow> 's \<times> 'e option) \<Rightarrow>
   's \<Rightarrow> 'l tensor \<Rightarrow> 'a tensor \<Rightarrow> 'w tensor option \<Rightarrow> 's \<times> 'e raised option" where
  "update_state super_update_state self y_true y_pred sample_weight =
     (case ensure_shape y_pred [None, Some 2] of
        Inl e \<Rightarrow> (self, Some (AtShapeCheck e))
      | Inr y_pred1 \<Rightarrow>
          (case slice_column y_pred1 1 of
             Inl e \<Rightarrow> (self, Some (AtSlice e))
           | Inr y_pred2 \<Rightarrow>
               (case super_update_state self y_true y_pred2 sample_weight of
                  (self', r) \<Rightarrow> (self', map_option InSuper r))))"

text \<open>
  The claim's reading, from its words: the positive-class column of a list of
  two-column prediction rows, as a tensor of shape \<open>[N]\<close>.
\<close>

definition positive_class_column :: "'a list list \<Rightarrow> 'a tensor" where
  "positive_class_column rows = \<lparr>shape = [length rows], data = map (\<lambda>r. r ! 1) rows\<rparr>"

section \<open>The dataset adapters (ecoroar/dataset/cola.py, mrpc.py)\<close>

text \<open>The class attributes of a dataset adapter, and the name its builder asks for.\<close>

record dataset =
  name :: string
  metrics :: "string list"
  early_stopping_metric :: string
  split_train :: string
  split_valid :: string
  split_test :: string
  builder :: string

definition CoLADataset :: dataset where
  "CoLADataset =
     \<lparr>name = ''CoLA'', metrics = [''accuracy'', ''matthew''], early_stopping_metric = ''matthew'',
      split_train = ''train[:80%]'', split_valid = ''train[80%:]'', split_test = ''validation'',
      builder = ''glue/cola''\<rparr>"

definition MRPCDataset :: dataset where
  "MRPCDataset =
     \<lparr>name = ''MRPC'', metrics = [''accuracy'', ''macro_f1''], early_stopping_metric = ''macro_f1'',
      split_train = ''train[:80%]'', split_valid = ''train[80%:]'', split_test = ''validation'',
      builder = ''glue/mrpc''\<rparr>"

text \<open>
  What a split specification selects is decided by TensorFlow Datasets' split API, which the
  adapters hand the strings to. Its reading of one specification \<open>name\<close> or
  \<open>name[from:to]\<close>, each bound an optional integer with an optional \<open>%\<close>:
  the instruction, then its absolute boundaries for a split of \<open>n\<close> examples (a
  percentage is rounded to the closest index, a tie to the even one, as Python's
  \<open>round\<close> does), then the slice.
\<close>

record ReadInstruction =
  splitname :: string
  from_bound :: "int option"
  to_bound :: "int option"
  percent :: bool

definition digit_val :: "char \<Rightarrow> nat" where
  "digit_val c = of_char c - 48"

definition is_digit :: "char \<Rightarrow> bool" where
  "is_digit c = ((48::nat) \<le> of_char c \<and> of_char c \<le> (57::nat))"

definition parse_nat :: "string \<Rightarrow> nat option" where
  "parse_nat s =
     (if s \<noteq> [] \<and> list_all is_digit s
      then Some (foldl (\<lambda>n c. 10 * n + digit_val c) 0 s)
      else None)"

text \<open>A bound: nothing, or an integer with an optional sign, and whether \<open>%\<close> follows.\<close>

definition parse_bound :: "string \<Rightarrow> (int option \<times> bool) option" where
  "parse_bound s =
     (if s = [] then Some (None, False)
      else let pct = (last s = CHR ''%'');
               s1 = (if pct then butlast s else s);
               neg = (s1 \<noteq> [] \<and> hd s1 = CHR ''-'');
               s2 = (if neg then tl s1 else s1)
           in case parse_nat s2 of
                None \<Rightarrow> None
              | Some v \<Rightarrow> Some (Some (if neg then - int v else int v), pct))"

definition parse_split :: "string \<Rightarrow> error + ReadInstruction" where
  "parse_split spec =
     (let nm = takeWhile (\<lambda>c. c \<noteq> CHR ''['') spec;
          rest = dropWhile (\<lambda>c. c \<noteq> CHR ''['') spec
      in if nm = [] then Inl ValueError
         else if rest = [] then
           Inr \<lparr>splitname = nm, from_bound = None, to_bound = None, percent = False\<rparr>
         else if last rest \<noteq> CHR '']'' then Inl ValueError
         else let sel = butlast (tl rest);
                  lo = takeWhile (\<lambda>c. c \<noteq> CHR '':'') sel;
                  hi = dropWhile (\<lambda>c. c \<noteq> CHR '':'') sel
              in if hi = [] then Inl ValueError
                 else (case (parse_bound lo, parse_bound (tl hi)) of
                         (Some (f, fp), Some (t, tp)) \<Rightarrow>
                           Inr \<lparr>splitname = nm, from_bound = f, to_bound = t,
                                percent = (fp \<or> tp)\<rparr>
                       | _ \<Rightarrow> Inl ValueError))"

definition pct_to_abs_closest :: "int \<Rightarrow> int \<Rightarrow> int" where
  "pct_to_abs_closest boundary num_examples =
     (let q = (boundary * num_examples) div 100;
          r = (boundary * num_examples) mod 100
      in if r < 50 then q
         else if 50 < r then q + 1
         else if even q then q else q + 1)"

definition rel_to_abs :: "ReadInstruction \<Rightarrow> int \<Rightarrow> error + int \<times> int" where
  "rel_to_abs instr num_examples =
     (let conv = (\<lambda>v. if percent instr then pct_to_abs_closest v num_examples else v);
          f = (case from_bound instr of None \<Rightarrow> 0 | Some v \<Rightarrow> conv v);
          t = (case to_bound instr of None \<Rightarrow> num_examples | Some v \<Rightarrow> conv v)
      in if percent instr \<and>
            ((case from_bound instr of None \<Rightarrow> False | Some v \<Rightarrow> 100 < \<bar>v\<bar>) \<or>
             (case to_bound instr of None \<Rightarrow> False | Some v \<Rightarrow> 100 < \<bar>v\<bar>))
         then Inl ValueError
         else if num_examples < \<bar>f\<bar> \<or> num_examples < \<bar>t\<bar> then Inl ValueError
         else Inr (if f < 0 then num_examples + f else f, if t < 0 then num_examples + t else t))"

text \<open>Reading a specification off the raw splits of a built dataset.\<close>

definition read_split :: "string \<Rightarrow> (string \<rightharpoonup> 'a list) \<Rightarrow> error + 'a list" where
  "read_split spec raw =
     (case parse_split spec of
        Inl e \<Rightarrow> Inl e
      | Inr instr \<Rightarrow>
          (case raw (splitname instr) of
             None \<Rightarrow> Inl ValueError
           | Some xs \<Rightarrow>
               (case rel_to_abs instr (int (length xs)) of
                  Inl e \<Rightarrow> Inl e
                | Inr (f, t) \<Rightarrow> Inr (take (nat (t - f)) (drop (nat f) xs)))))"

section \<open>JSON values and \<open>json.load\<close>\<close>

text \<open>
  What Python's \<open>json\<close> module returns: \<open>None\<close>, a bool, an int, a float (kept as its
  literal, so no floating-point arithmetic is modelled), a str, a list or a dict. A dict
  keeps its keys in insertion order, so it is an association list whose keys are distinct.
\<close>

datatype json =
  JNull
  | JBool bool
  | JInt int
  | JFloat string
  | JString string
  | JList "json list"
  | JDict "(string \<times> json) list"

text \<open>\<open>d[k] = v\<close> on a dict: an existing key keeps its place, a new one goes last.\<close>

fun dict_set :: "(string \<times> 'v) list \<Rightarrow> string \<Rightarrow> 'v \<Rightarrow> (string \<times> 'v) list" where
  "dict_set [] k v = [(k, v)]"
| "dict_set ((k', v') # d) k v = (if k' = k then (k, v) # d else (k', v') # dict_set d k v)"















section \<open>Loading the result files (export/faithfulness\_plot.py, export/unmasked\_performance\_plot.py)\<close>




section \<open>Normalizing and exploding the records\<close>

text \<open>
  The pandas operations the scripts call, as the library documents them. A DataFrame is
  its list of column names and its rows in index order; a row lists the columns it has a
  value in, and a column it does not list holds NaN there.
\<close>

record frame =
  columns :: "string list"
  frame_rows :: "(string \<times> json) list list"

text \<open>
  \<open>pandas.json_normalize\<close> flattens the nested dicts of a record into columns whose names
  join the keys with a dot; values that are not dicts (lists too) stay as they are, and the
  top-level ones come first.
\<close>

fun normalise_json :: "json \<Rightarrow> string \<Rightarrow> (string \<times> json) list \<Rightarrow> (string \<times> json) list"
  and normalise_items ::
    "(string \<times> json) list \<Rightarrow> string \<Rightarrow> (string \<times> json) list \<Rightarrow> (string \<times> json) list" where
  "normalise_json (JDict kvs) key_string acc = normalise_items kvs key_string acc"
| "normalise_json v key_string acc = dict_set acc key_string v"
| "normalise_items [] key_string acc = acc"
| "normalise_items ((key, v) # kvs) key_string acc =
     normalise_items kvs key_string
       (normalise_json v (if key_string = [] then key else key_string @ ''.'' @ key) acc)"

definition is_dict :: "json \<Rightarrow> bool" where
  "is_dict v = (case v of JDict _ \<Rightarrow> True | _ \<Rightarrow> False)"

definition normalise_json_ordered :: "(string \<times> json) list \<Rightarrow> (string \<times> json) list" where
  "normalise_json_ordered d =
     foldl (\<lambda>acc (k, v). dict_set acc k v)
       (filter (\<lambda>(k, v). \<not> is_dict v) d)
       (normalise_items (filter (\<lambda>(k, v). is_dict v) d) [] [])"

text \<open>
  One element of the data: a dict gives its flattened row, a scalar or NaN (\<open>None\<close>) a row
  without values. A list in the place of a record is outside what is modelled: pandas lays
  such data out by position and the scripts then fail on the missing column; the model
  fails at once.
\<close>

definition simple_json_normalize :: "json option \<Rightarrow> error + (string \<times> json) list" where
  "simple_json_normalize ds =
     (case ds of
        Some (JDict d) \<Rightarrow> Inr (normalise_json_ordered d)
      | Some (JList _) \<Rightarrow> Inl TypeError
      | _ \<Rightarrow> Inr [])"

fun normalize_all :: "json option list \<Rightarrow> error + (string \<times> json) list list" where
  "normalize_all [] = Inr []"
| "normalize_all (d # ds) =
     (case simple_json_normalize d of
        Inl e \<Rightarrow> Inl e
      | Inr r \<Rightarrow> (case normalize_all ds of Inl e \<Rightarrow> Inl e | Inr rs \<Rightarrow> Inr (r # rs)))"

text \<open>\<open>DataFrame(rows)\<close>: the columns are the keys of the rows, in order of first appearance.\<close>

definition DataFrame :: "(string \<times> json) list list \<Rightarrow> frame" where
  "DataFrame rs =
     \<lparr>columns = foldl (\<lambda>cols r. cols @ filter (\<lambda>k. k \<notin> set cols) (remdups (map fst r))) [] rs,
      frame_rows = rs\<rparr>"

definition json_normalize :: "json option list \<Rightarrow> error + frame" where
  "json_normalize ds =
     (case normalize_all ds of Inl e \<Rightarrow> Inl e | Inr rs \<Rightarrow> Inr (DataFrame rs))"

text \<open>
  \<open>df.explode(column, ignore_index=True)\<close>: a row whose cell is a list becomes one row per
  element, the other cells repeated; an empty list becomes one row whose cell is NaN; any
  other cell leaves the row as it is. The rows are then numbered anew.
\<close>

definition explode :: "frame \<Rightarrow> string \<Rightarrow> error + frame" where
  "explode df column =
     (if column \<notin> set (columns df) then Inl (KeyError column)
      else Inr (df\<lparr>frame_rows :=
             concat (map (\<lambda>r. case map_of r column of
                                  Some (JList []) \<Rightarrow> [filter (\<lambda>(k, v). k \<noteq> column) r]
                                | Some (JList es) \<Rightarrow> map (\<lambda>e. dict_set r column e) es
                                | _ \<Rightarrow> [r])
                         (frame_rows df))\<rparr>))"

text \<open>\<open>df.pop(column)\<close>: the column as a series, NaN being \<open>None\<close>, and the frame without it.\<close>

definition pop :: "frame \<Rightarrow> string \<Rightarrow> error + json option list \<times> frame" where
  "pop df column =
     (if column \<notin> set (columns df) then Inl (KeyError column)
      else Inr (map (\<lambda>r. map_of r column) (frame_rows df),
                \<lparr>columns = removeAll column (columns df),
                 frame_rows = map (filter (\<lambda>(k, v). k \<noteq> column)) (frame_rows df)\<rparr>))"

definition add_prefix :: "string \<Rightarrow> frame \<Rightarrow> frame" where
  "add_prefix p df =
     \<lparr>columns = map (\<lambda>k. p @ k) (columns df),
      frame_rows = map (map (\<lambda>(k, v). (p @ k, v))) (frame_rows df)\<rparr>"

text \<open>
  \<open>pd.concat([a, b], axis=1)\<close> of two frames indexed from zero: row \<open>i\<close> of the one beside
  row \<open>i\<close> of the other, NaN where one of them is shorter.
\<close>

definition concat_axis1 :: "frame \<Rightarrow> frame \<Rightarrow> frame" where
  "concat_axis1 a b =
     \<lparr>columns = columns a @ columns b,
      frame_rows = map (\<lambda>i. (if i < length (frame_rows a) then frame_rows a ! i else []) @
                       (if i < length (frame_rows b) then frame_rows b ! i else []))
                 [0..<max (length (frame_rows a)) (length (frame_rows b))]\<rparr>"

text \<open>
  The three lines both scripts run on the loaded records:
  \<^verbatim>\<open>df = pd.json_normalize(results).explode('results', ignore_index=True)\<close>,
  \<^verbatim>\<open>results = pd.json_normalize(df.pop('results')).add_prefix('results.')\<close>,
  \<^verbatim>\<open>df = pd.concat([df, results], axis=1)\<close>.
\<close>

definition results_frame :: "json list \<Rightarrow> error + frame" where
  "results_frame results =
     (case json_normalize (map Some results) of
        Inl e \<Rightarrow> Inl e
      | Inr df0 \<Rightarrow>
          (case explode df0 ''results'' of
             Inl e \<Rightarrow> Inl e
           | Inr df1 \<Rightarrow>
               (case pop df1 ''results'' of
                  Inl e \<Rightarrow> Inl e
                | Inr (series, df2) \<Rightarrow>
                    (case json_normalize series of
                       Inl e \<Rightarrow> Inl e
                     | Inr res \<Rightarrow> Inr (concat_axis1 df2 (add_prefix ''results.'' res))))))"

text \<open>
  The claim's reading of a record, from its words: its results list, the fields it
  carries into every row (all its flattened fields but the results list), and the rows
  it stands for, one per element of the list.
\<close>

definition record_fields :: "json \<Rightarrow> (string \<times> json) list" where
  "record_fields r = (case r of JDict d \<Rightarrow> normalise_json_ordered d | _ \<Rightarrow> [])"

definition results_list :: "json \<Rightarrow> json list" where
  "results_list r = (case map_of (record_fields r) ''results'' of Some (JList es) \<Rightarrow> es | _ \<Rightarrow> [])"

definition carried_fields :: "json \<Rightarrow> (string \<times> json) list" where
  "carried_fields r = filter (\<lambda>(k, v). k \<noteq> ''results'') (record_fields r)"

definition record_rows :: "json \<Rightarrow> (string \<times> json) list list" where
  "record_rows r =
     map (\<lambda>e. carried_fields r @ map (\<lambda>(k, v). (''results.'' @ k, v)) (record_fields e))
         (results_list r)"

definition wf_record :: "json \<Rightarrow> bool" where
  "wf_record r =
     (is_dict r \<and> map_of (record_fields r) ''results'' = Some (JList (results_list r))
      \<and> list_all is_dict (results_list r))"

section \<open>The command lines of the export scripts\<close>

text \<open>
  An argument as the scripts add it: \<open>action='store'\<close> with one value, a default and,
  for two of them, a list of choices. The destination is the option string without its
  dashes, inner dashes as underscores.
\<close>

record argument =
  option_string :: string
  default_value :: string
  choices :: "string list option"




text \<open>
  \<open>ArgumentParser.parse_known_args\<close>, as argparse documents it, for a parser of such
  arguments and the help option it adds by itself. Each string of the command line is first
  read as a positional, as the separator \<open>--\<close> (after which all are positionals), or as an
  option: one the parser knows, by its full name, by \<open>name=value\<close> or by an unambiguous
  prefix, or one it does not know.
\<close>

datatype action = HelpAction | StoreAction argument

datatype token = Positional | DoubleDash | OptionTok "action option" "string option"

definition option_table :: "argument list \<Rightarrow> (string \<times> action) list" where
  "option_table p =
     [(''-h'', HelpAction), (''--help'', HelpAction)] @ map (\<lambda>a. (option_string a, StoreAction a)) p"

definition negative_number_like :: "string \<Rightarrow> bool" where
  "negative_number_like a =
     (case a of
        c # r \<Rightarrow>
          c = CHR ''-'' \<and>
          (let ds = takeWhile is_digit r; r1 = dropWhile is_digit r
           in (ds \<noteq> [] \<and> (r1 = [] \<or> r1 = ''.'' \<or> (hd r1 = CHR ''.'' \<and> list_all is_digit (tl r1))))
              \<or> (ds = [] \<and> r1 \<noteq> [] \<and> hd r1 = CHR ''.'' \<and> tl r1 \<noteq> [] \<and> list_all is_digit (tl r1)))
      | [] \<Rightarrow> False)"

definition parse_optional :: "argument list \<Rightarrow> string \<Rightarrow> error + token" where
  "parse_optional p a =
     (if a = [] then Inr Positional
      else if hd a \<noteq> CHR ''-'' then Inr Positional
      else
        (case map_of (option_table p) a of
           Some act \<Rightarrow> Inr (OptionTok (Some act) None)
         | None \<Rightarrow>
             if length a = 1 then Inr Positional
             else
               (let opt = takeWhile (\<lambda>c. c \<noteq> CHR ''='') a;
                    explicit = (if CHR ''='' \<in> set a
                                then Some (tl (dropWhile (\<lambda>c. c \<noteq> CHR ''='') a)) else None)
                in case (if explicit = None then None else map_of (option_table p) opt) of
                     Some act \<Rightarrow> Inr (OptionTok (Some act) explicit)
                   | None \<Rightarrow>
                       (case (if a ! 1 = CHR ''-''
                              then filter (\<lambda>(s, act). take (length opt) s = opt) (option_table p)
                              else filter (\<lambda>(s, act). s = take 2 a) (option_table p)) of
                          [(s, act)] \<Rightarrow>
                            Inr (OptionTok (Some act)
                                   (if a ! 1 = CHR ''-'' then explicit else Some (drop 2 a)))
                        | _ # _ # _ \<Rightarrow> Inl (ArgumentError ''ambiguous option'')
                        | [] \<Rightarrow>
                            if negative_number_like a then Inr Positional
                            else if CHR '' '' \<in> set a then Inr Positional
                            else Inr (OptionTok None None)))))"





section \<open>The plot stage of the export scripts\<close>

text \<open>What a script leaves behind: the lines it printed and the files it saved, in order.\<close>

datatype event = Printed string | Saved string

definition skip_message :: "string \<Rightarrow> string" where
  "skip_message model_category =
     ''Skipping model category '' @ [CHR 0x22] @ model_category @ [CHR 0x22] @ '', no observations.''"

text \<open>
  The loop over the model categories. The dataframe, pandas' \<open>query\<close> with the script's
  expression, the number of rows of a frame, and the step that computes the bootstrap
  confidence intervals and builds the plot (\<open>ecoroar.plot.bootstrap_confint\<close> and plotnine,
  neither in the sources) are parameters; that step may raise. After it the plot is saved
  as a PDF and as a PNG under the stem of the script.
\<close>

fun plot_categories ::
  "(string \<Rightarrow> 'df \<Rightarrow> 'df) \<Rightarrow> ('df \<Rightarrow> nat) \<Rightarrow> (string \<Rightarrow> 'df \<Rightarrow> error option) \<Rightarrow> string \<Rightarrow>
   'df \<Rightarrow> string list \<Rightarrow> event list \<Rightarrow> error option \<times> event list" where
  "plot_categories query nrows confint_plot stem df [] out = (None, out)"
| "plot_categories query nrows confint_plot stem df (model_category # cs) out =
     (let df_model_category = query model_category df in
      if nrows df_model_category = 0
      then plot_categories query nrows confint_plot stem df cs
             (out @ [Printed (skip_message model_category)])
      else
        (case confint_plot model_category df_model_category of
           Some e \<Rightarrow> (Some e, out)
         | None \<Rightarrow>
             plot_categories query nrows confint_plot stem df cs
               (out @ [Saved (stem @ model_category @ ''.pdf''),
                       Saved (stem @ model_category @ ''.png'')])))"

text \<open>
  The two scripts: \<open>faithfulness_plot.py\<close> queries
  \<^verbatim>\<open>`model_category` == @model_category\<close>, \<open>unmasked_performance_plot.py\<close> queries
  \<^verbatim>\<open>`results.masking_ratio` == 0 & model_category == @model_category\<close>; both go through
  the categories \<open>masking-ratio\<close> and \<open>size\<close>.
\<close>

definition faithfulness_plot_stage ::
  "(string \<Rightarrow> 'df \<Rightarrow> 'df) \<Rightarrow> ('df \<Rightarrow> nat) \<Rightarrow> (string \<Rightarrow> 'df \<Rightarrow> error option) \<Rightarrow> string \<Rightarrow>
   'df \<Rightarrow> error option \<times> event list" where
  "faithfulness_plot_stage query_category nrows confint_plot persistent_dir df =
     plot_categories query_category nrows confint_plot
       (persistent_dir @ ''/plots/faithfulness_m-'') df [''masking-ratio'', ''size''] []"

definition unmasked_performance_plot_stage ::
  "(string \<Rightarrow> 'df \<Rightarrow> 'df) \<Rightarrow> ('df \<Rightarrow> nat) \<Rightarrow> (string \<Rightarrow> 'df \<Rightarrow> error option) \<Rightarrow> string \<Rightarrow>
   'df \<Rightarrow> error option \<times> event list" where
  "unmasked_performance_plot_stage query_unmasked_category nrows confint_plot persistent_dir df =
     plot_categories query_unmasked_category nrows confint_plot
       (persistent_dir @ ''/plots/unmasked_performance_m-'') df [''masking-ratio'', ''size''] []"

text \<open>
  For the proofs: the cells the results list of a record explodes into (one NaN for an
  empty list), and the pairs of a record and one of its cells, in row order.
\<close>

definition cells :: "json \<Rightarrow> json option list" where
  "cells r = (if results_list r = [] then [None] else map Some (results_list r))"

definition exploded :: "json list \<Rightarrow> (json \<times> json option) list" where
  "exploded rs = concat (map (\<lambda>r. map (\<lambda>c. (r, c)) (cells r)) rs)"


chapter \<open>Properties\<close>

section \<open>Lists in row-major order\<close>

lemma nth_concat_uniform:
  "\<forall>x\<in>set xs. length x = n \<Longrightarrow> i < length xs \<Longrightarrow> j < n \<Longrightarrow> concat xs ! (i * n + j) = xs ! i ! j"
proof (induction xs arbitrary: i)
  case Nil
  then show ?case by simp
next
  case (Cons x xs)
  show ?case
  proof (cases i)
    case 0
    with Cons.prems show ?thesis by (simp add: nth_append)
  next
    case (Suc k)
    with Cons.prems have "concat xs ! (k * n + j) = xs ! k ! j"
      by (intro Cons.IH) auto
    with Suc Cons.prems show ?thesis by (simp add: nth_append add.assoc)
  qed
qed

lemma length_concat_uniform:
  "\<forall>x\<in>set xs. length x = n \<Longrightarrow> length (concat xs) = length xs * n"
  by (induction xs) auto

lemma flat_index_less: "i < b \<Longrightarrow> j < (t::nat) \<Longrightarrow> i * t + j < b * t"
proof -
  assume a: "i < b" "j < t"
  then have "i * t + j < i * t + t" by simp
  also have "\<dots> = Suc i * t" by simp
  also from a have "\<dots> \<le> b * t" by (intro mult_le_mono1) simp
  finally show ?thesis .
qed

lemma vec_sum_length: "\<forall>v\<in>set vs. length v = d \<Longrightarrow> length (vec_sum d vs) = d"
  by (induction vs) (auto simp: vec_sum_def)

lemma vec_sum_nth:
  "\<forall>v\<in>set vs. length v = d \<Longrightarrow> j < d \<Longrightarrow> vec_sum d vs ! j = sum_list (map (\<lambda>v. v ! j) vs)"
proof (induction vs)
  case Nil
  then show ?case by (simp add: vec_sum_def)
next
  case (Cons v vs)
  then have len: "length (vec_sum d vs) = d" by (simp add: vec_sum_length)
  have "vec_sum d (v # vs) = map2 (+) v (vec_sum d vs)" by (simp add: vec_sum_def)
  with Cons len show ?case by simp
qed

lemma map_index_rows: "map (\<lambda>i. g (rows ! i)) [0..<length rows] = map g rows"
proof -
  have "map (\<lambda>i. g (rows ! i)) [0..<length rows] = map g (map (\<lambda>i. rows ! i) [0..<length rows])"
    by simp
  also have "\<dots> = map g rows" by (simp only: map_nth)
  finally show ?thesis .
qed

lemma concat_by_rows:
  assumes "\<And>i. i < length rows \<Longrightarrow> f i = g (rows ! i)"
  shows "concat (map f [0..<length rows]) = concat (map g rows)"
proof -
  from assms have "map f [0..<length rows] = map (\<lambda>i. g (rows ! i)) [0..<length rows]"
    by simp
  then show ?thesis by (simp only: map_index_rows)
qed

lemma map2_same: "map2 f xs xs = map (\<lambda>x. f x x) xs"
  by (induction xs) auto


section \<open>Properties of the toy model\<close>

lemma default_row:
  "0 \<le> t \<Longrightarrow> t < 5 \<Longrightarrow>
   take 2 (drop (nat t * 2) [0, 1, 0, 1, 0, 0, 1, 0, 0, 1 :: 'a::comm_semiring_1]) = default_embedding ! nat t"
proof -
  assume "0 \<le> t" "t < 5"
  then have "t = 0 \<or> t = 1 \<or> t = 2 \<or> t = 3 \<or> t = 4" by arith
  then show ?thesis by (auto simp: default_embedding_def)
qed

lemma default_row_length: "0 \<le> t \<Longrightarrow> t < 5 \<Longrightarrow> length (default_embedding ! nat t) = 2"
proof -
  assume "0 \<le> t" "t < 5"
  then have "t = 0 \<or> t = 1 \<or> t = 2 \<or> t = 3 \<or> t = 4" by arith
  then show ?thesis by (auto simp: default_embedding_def)
qed

lemma default_model:
  "SimpleTestModel_init default_embedding defalt_kernel True =
     Inr \<lparr>embeddings = \<lparr>shape = [5, 2], data = [0, 1, 0, 1, 0, 0, 1, 0, 0, 1 :: 'a::comm_semiring_1]\<rparr>,
          kernel = \<lparr>shape = [2, 3], data = [1, 0, 1, 0, 1, 1]\<rparr>\<rparr>"
  by (simp add: SimpleTestModel_init_def convert_to_tensor_def default_embedding_def defalt_kernel_def
      call_def inputs_embeds_of_def embedding_layer_def tensor_mul_def reduce_sum_axis1_def dense_layer_def)

text \<open>The embedding layer on ids of the vocabulary.\<close>

lemma embedding_default:
  assumes "\<forall>r\<in>set rows. length r = T \<and> (\<forall>t\<in>set r. 0 \<le> t \<and> t < 5)"
  shows "embedding_layer \<lparr>shape = [5, 2], data = [0, 1, 0, 1, 0, 0, 1, 0, 0, 1 :: 'a::comm_semiring_1]\<rparr>
           (matrix_tensor T rows) =
         Inr \<lparr>shape = [length rows, T, 2],
              data = concat (map (\<lambda>t. default_embedding ! nat t) (concat rows))\<rparr>"
proof -
  from assms have inr: "\<forall>t\<in>set (concat rows). 0 \<le> t \<and> t < 5" by auto
  then have eq: "map (\<lambda>t. take 2 (drop (nat t * 2) [0, 1, 0, 1, 0, 0, 1, 0, 0, 1 :: 'a])) (concat rows)
      = map (\<lambda>t. default_embedding ! nat t) (concat rows)"
    by (intro map_cong) (auto simp: default_row)
  from inr have ok: "list_all (\<lambda>t. 0 \<le> t \<and> t < 5) (concat rows)"
    by (simp add: list_all_iff)
  show ?thesis
    by (simp add: embedding_layer_def matrix_tensor_def ok eq)
qed

text \<open>Squaring, then summing over the positions.\<close>

lemma squared_sum_default:
  assumes rows: "\<forall>r\<in>set rows. length r = T \<and> (\<forall>t\<in>set r. 0 \<le> t \<and> t < 5)"
  shows "reduce_sum_axis1 \<lparr>shape = [length rows, T, 2],
            data = map (\<lambda>x. x * x) (concat (map (\<lambda>t. default_embedding ! nat t) (concat rows)))\<rparr> =
         Inr \<lparr>shape = [length rows, 2],
              data = concat (map (\<lambda>r. vec_sum 2 (map (\<lambda>t. vec_square ((default_embedding :: 'a::comm_semiring_1 list list) ! nat t)) r)) rows)\<rparr>"
proof -
  define e :: "int \<Rightarrow> 'a list" where "e = (\<lambda>t. default_embedding ! nat t)"
  define zd where "zd = map (\<lambda>x. x * x) (concat (map e (concat rows)))"
  have zd_alt: "zd = concat (map (\<lambda>t. vec_square (e t)) (concat rows))"
    by (simp add: zd_def map_concat vec_square_def comp_def)
  have len_rows: "\<forall>r\<in>set rows. length r = T" using rows by simp
  have len_e: "\<forall>v\<in>set (map (\<lambda>t. vec_square (e t)) (concat rows)). length v = 2"
    using rows by (auto simp: e_def vec_square_def default_row_length)
  have elem: "zd ! ((i * T + j) * 2 + k) = vec_square (e (rows ! i ! j)) ! k"
    if "i < length rows" "j < T" "k < 2" for i j k
  proof -
    have n: "i * T + j < length (concat rows)"
      using that by (simp add: length_concat_uniform [OF len_rows] flat_index_less)
    have "zd ! ((i * T + j) * 2 + k) = map (\<lambda>t. vec_square (e t)) (concat rows) ! (i * T + j) ! k"
      unfolding zd_alt using len_e n that by (intro nth_concat_uniform) auto
    also have "\<dots> = vec_square (e (concat rows ! (i * T + j))) ! k" using n by simp
    also have "concat rows ! (i * T + j) = rows ! i ! j"
      using len_rows that by (intro nth_concat_uniform) auto
    finally show ?thesis .
  qed
  have row: "map (\<lambda>k. sum_list (map (\<lambda>j. zd ! ((i * T + j) * 2 + k)) [0..<T])) [0..<2]
      = vec_sum 2 (map (\<lambda>t. vec_square (e t)) (rows ! i))" if i: "i < length rows" for i
  proof (rule nth_equalityI)
    have lr: "length (rows ! i) = T" using len_rows i by simp
    have mem: "rows ! i \<in> set rows" using i by simp
    have l2: "\<forall>v\<in>set (map (\<lambda>t. vec_square (e t)) (rows ! i)). length v = 2"
      using rows mem by (auto simp: e_def vec_square_def default_row_length)
    show "length (map (\<lambda>k. sum_list (map (\<lambda>j. zd ! ((i * T + j) * 2 + k)) [0..<T])) [0..<2])
        = length (vec_sum 2 (map (\<lambda>t. vec_square (e t)) (rows ! i)))"
      using l2 by (simp add: vec_sum_length)
    fix k assume "k < length (map (\<lambda>k. sum_list (map (\<lambda>j. zd ! ((i * T + j) * 2 + k)) [0..<T])) [0..<2])"
    then have k: "k < 2" by simp
    have "vec_sum 2 (map (\<lambda>t. vec_square (e t)) (rows ! i)) ! k
        = sum_list (map (\<lambda>v. v ! k) (map (\<lambda>t. vec_square (e t)) (rows ! i)))"
      using l2 k by (rule vec_sum_nth)
    also have "\<dots> = sum_list (map (\<lambda>t. vec_square (e t) ! k) (rows ! i))"
      by (simp add: comp_def)
    also have "\<dots> = sum_list (map (\<lambda>j. vec_square (e (rows ! i ! j)) ! k) [0..<length (rows ! i)])"
      by (simp only: map_index_rows [of "\<lambda>t. vec_square (e t) ! k" "rows ! i"])
    also have "map (\<lambda>j. vec_square (e (rows ! i ! j)) ! k) [0..<length (rows ! i)]
        = map (\<lambda>j. zd ! ((i * T + j) * 2 + k)) [0..<T]"
      unfolding lr
    proof (rule map_cong [OF refl])
      fix j assume "j \<in> set [0..<T]"
      then have "j < T" by simp
      from elem [OF i this k] show "vec_square (e (rows ! i ! j)) ! k = zd ! ((i * T + j) * 2 + k)"
        by (rule sym)
    qed
    finally show "map (\<lambda>k. sum_list (map (\<lambda>j. zd ! ((i * T + j) * 2 + k)) [0..<T])) [0..<2] ! k
        = vec_sum 2 (map (\<lambda>t. vec_square (e t)) (rows ! i)) ! k"
      using k by simp
  qed
  have "concat (map (\<lambda>i. map (\<lambda>k. sum_list (map (\<lambda>j. zd ! ((i * T + j) * 2 + k)) [0..<T])) [0..<2]) [0..<length rows])
      = concat (map (\<lambda>r. vec_sum 2 (map (\<lambda>t. vec_square (e t)) r)) rows)"
    by (rule concat_by_rows) (rule row)
  then show ?thesis
    by (simp add: reduce_sum_axis1_def zd_def e_def)
qed


lemma dense_default:
  assumes vs: "\<forall>v\<in>set vs. length v = 2"
  shows "dense_layer \<lparr>shape = [2, 3], data = [1, 0, 1, 0, 1, 1 :: 'a::comm_semiring_1]\<rparr>
           \<lparr>shape = [length vs, 2], data = concat vs\<rparr> =
         Inr \<lparr>shape = [length vs, 3], data = concat (map (\<lambda>v. vec_mat v defalt_kernel 3) vs)\<rparr>"
proof -
  have row: "map (\<lambda>k. sum_list (map (\<lambda>j. concat vs ! (i * 2 + j) * [1, 0, 1, 0, 1, 1 :: 'a] ! (j * 3 + k)) [0..<2])) [0..<3]
      = vec_mat (vs ! i) defalt_kernel 3" if i: "i < length vs" for i
  proof -
    have c0: "concat vs ! (i * 2 + 0) = vs ! i ! 0" using vs i by (intro nth_concat_uniform) auto
    have c1: "concat vs ! (i * 2 + 1) = vs ! i ! 1" using vs i by (intro nth_concat_uniform) auto
    have u2: "[0..<2] = [0, Suc 0]" by (simp add: upt_rec)
    have u3: "[0..<3] = [0, Suc 0, Suc (Suc 0)]" by (simp add: upt_rec)
    from c0 c1 show ?thesis
      by (simp add: vec_mat_def defalt_kernel_def u2 u3)
  qed
  have "concat (map (\<lambda>i. map (\<lambda>k. sum_list (map (\<lambda>j. concat vs ! (i * 2 + j) * [1, 0, 1, 0, 1, 1 :: 'a] ! (j * 3 + k)) [0..<2])) [0..<3]) [0..<length vs])
      = concat (map (\<lambda>v. vec_mat v defalt_kernel 3) vs)"
    by (rule concat_by_rows) (rule row)
  then show ?thesis
    by (simp add: dense_layer_def)
qed

lemma call_default_ids:
  assumes rows: "\<forall>r\<in>set rows. length r = T \<and> (\<forall>t\<in>set r. 0 \<le> t \<and> t < 5)"
  shows "call \<lparr>embeddings = \<lparr>shape = [5, 2], data = [0, 1, 0, 1, 0, 0, 1, 0, 0, 1 :: 'a::comm_semiring_1]\<rparr>,
               kernel = \<lparr>shape = [2, 3], data = [1, 0, 1, 0, 1, 1]\<rparr>\<rparr>
           \<lparr>input_ids = Some (matrix_tensor T rows), attention_mask = Some am, inputs_embeds = None\<rparr> =
         Inr \<lparr>logits = matrix_tensor 3 (map toy_logits rows)\<rparr>"
proof -
  define s :: "int list \<Rightarrow> 'a list"
    where "s = (\<lambda>r. vec_sum 2 (map (\<lambda>t. vec_square (default_embedding ! nat t)) r))"
  have len_s: "\<forall>v\<in>set (map s rows). length v = 2"
    using rows by (auto simp: s_def vec_square_def default_row_length intro!: vec_sum_length)
  have d: "dense_layer \<lparr>shape = [2, 3], data = [1, 0, 1, 0, 1, 1 :: 'a]\<rparr>
           \<lparr>shape = [length rows, 2], data = concat (map s rows)\<rparr> =
         Inr \<lparr>shape = [length rows, 3], data = concat (map toy_logits rows)\<rparr>"
    using dense_default [OF len_s] by (simp add: comp_def toy_logits_def [abs_def] s_def)
  show ?thesis
    by (simp add: call_def inputs_embeds_of_def embedding_default [OF rows, unfolded matrix_tensor_def]
        tensor_mul_def map2_same squared_sum_default [OF rows] d [unfolded s_def] matrix_tensor_def)
qed

text \<open>
  Claim C8. With the default initializers, the model's logits for a batch of token
  sequences, each of \<open>T\<close> ids of the vocabulary \<open>0..4\<close>, are one vector per sequence:
  the squared embeddings of its tokens, summed over the positions, times the kernel, with
  no bias; each vector has three entries.
\<close>

theorem SimpleTestModel_call_default:
  assumes "\<forall>r\<in>set rows. length r = T \<and> (\<forall>t\<in>set r. 0 \<le> t \<and> t < 5)"
  shows "(case SimpleTestModel_init default_embedding defalt_kernel True of
            Inl e \<Rightarrow> Inl e
          | Inr m \<Rightarrow> call m \<lparr>input_ids = Some (matrix_tensor T rows), attention_mask = Some am,
                              inputs_embeds = None\<rparr>) =
         Inr \<lparr>logits = matrix_tensor 3 (map toy_logits rows :: 'a::comm_semiring_1 list list)\<rparr>
         \<and> length (toy_logits r :: 'a list) = 3"
  by (simp add: default_model call_default_ids [OF assms]) (simp add: toy_logits_def vec_mat_def)

theorem SimpleTestModel_call_default_witness:
  "(case SimpleTestModel_init default_embedding defalt_kernel True of
      Inl e \<Rightarrow> Inl e
    | Inr m \<Rightarrow> call m \<lparr>input_ids = Some (matrix_tensor 3 [[0, 3, 1], [0, 3, 3]]),
                        attention_mask = Some \<lparr>shape = [2, 3], data = [1, 1, 1, 1, 0, 0]\<rparr>,
                        inputs_embeds = None\<rparr>) =
   Inr \<lparr>logits = \<lparr>shape = [2, 3], data = [1, 2, 3, 2, 1, 3 :: int]\<rparr>\<rparr>"
proof -
  have h: "\<forall>r\<in>set [[0, 3, 1], [0, 3, 3 :: int]]. length r = 3 \<and> (\<forall>t\<in>set r. 0 \<le> t \<and> t < 5)"
    by simp
  have v: "map toy_logits [[0, 3, 1], [0, 3, 3]] = [[1, 2, 3], [2, 1, 3 :: int]]"
    by (simp add: toy_logits_def vec_mat_def vec_sum_def vec_square_def default_embedding_def
        defalt_kernel_def upt_rec)
  from SimpleTestModel_call_default [OF h, where ?'a = int] show ?thesis
    unfolding v by (simp add: matrix_tensor_def)
qed

text \<open>
  Claim C10. Two inputs with the same \<open>input_ids\<close> and the same \<open>inputs_embeds\<close> (present
  or not) and any two attention masks give the same result of \<open>call\<close>, logits or error.
\<close>

theorem call_ignores_attention_mask:
  assumes ids: "input_ids x1 = input_ids x2" and emb: "inputs_embeds x1 = inputs_embeds x2"
    and am: "attention_mask x1 = Some am1" "attention_mask x2 = Some am2"
  shows "call m x1 = call m x2"
proof (cases "inputs_embeds x2")
  case (Some z)
  with emb show ?thesis by (simp add: call_def)
next
  case None
  note no_embeds = this
  show ?thesis
  proof (cases "input_ids x2")
    case None
    with no_embeds ids emb show ?thesis by (simp add: call_def inputs_embeds_of_def)
  next
    case (Some t)
    show ?thesis
    proof (cases "embedding_layer (embeddings m) t")
      case (Inl e)
      with Some no_embeds ids emb show ?thesis by (simp add: call_def inputs_embeds_of_def)
    next
      case (Inr z)
      with Some no_embeds ids emb am show ?thesis by (simp add: call_def inputs_embeds_of_def)
    qed
  qed
qed

theorem call_ignores_attention_mask_witness:
  "call \<lparr>embeddings = \<lparr>shape = [5, 2], data = [0, 1, 0, 1, 0, 0, 1, 0, 0, 1 :: int]\<rparr>,
         kernel = \<lparr>shape = [2, 3], data = [1, 0, 1, 0, 1, 1]\<rparr>\<rparr>
     \<lparr>input_ids = Some \<lparr>shape = [1, 2], data = [3, 2]\<rparr>,
      attention_mask = Some \<lparr>shape = [1, 2], data = [1, 1]\<rparr>, inputs_embeds = None\<rparr> =
   call \<lparr>embeddings = \<lparr>shape = [5, 2], data = [0, 1, 0, 1, 0, 0, 1, 0, 0, 1 :: int]\<rparr>,
         kernel = \<lparr>shape = [2, 3], data = [1, 0, 1, 0, 1, 1]\<rparr>\<rparr>
     \<lparr>input_ids = Some \<lparr>shape = [1, 2], data = [3, 2]\<rparr>,
      attention_mask = Some \<lparr>shape = [1, 2], data = [1, 0]\<rparr>, inputs_embeds = None\<rparr>"
  by (rule call_ignores_attention_mask) simp_all

section \<open>Properties of the AUROC metric\<close>

lemma ensure_shape_N2: "ensure_shape x [None, Some 2] = (if \<exists>n. shape x = [n, 2] then Inr x else Inl InvalidArgumentError)"
  by (cases "shape x" rule: list.exhaust; simp add: ensure_shape_def list_all2_Cons2)

lemma slice_column_N2:
  assumes "\<forall>r\<in>set rows. length r = 2"
  shows "slice_column (matrix_tensor 2 rows) 1 = Inr (positive_class_column rows)"
proof -
  have "map (\<lambda>i. concat rows ! (i * 2 + 1)) [0..<length rows] = map (\<lambda>i. rows ! i ! 1) [0..<length rows]"
    using assms by (intro map_cong [OF refl] nth_concat_uniform) auto
  also have "\<dots> = map (\<lambda>r. r ! 1) rows" by (rule map_index_rows)
  finally show ?thesis
    by (simp add: slice_column_def matrix_tensor_def positive_class_column_def)
qed


text \<open>
  Claim C1. On predictions of shape \<open>[N, 2]\<close>, given as \<open>N\<close> rows of two values,
  \<open>AUROC.update_state\<close> is the parent's \<open>update_state\<close> on the same state, labels and
  weights and the positive-class column of the predictions; so any result read off the
  state afterwards is the one read off the parent's state.
\<close>

theorem AUROC_update_state_refines_AUC:
  assumes "\<forall>r\<in>set rows. length r = 2"
  shows "update_state super_update_state self y_true (matrix_tensor 2 rows) sample_weight =
           (case super_update_state self y_true (positive_class_column rows) sample_weight of
              (self', r) \<Rightarrow> (self', map_option InSuper r))
         \<and> result (fst (update_state super_update_state self y_true (matrix_tensor 2 rows) sample_weight)) =
           result (fst (super_update_state self y_true (positive_class_column rows) sample_weight))"
proof -
  have sh: "ensure_shape (matrix_tensor 2 rows) [None, Some 2] = Inr (matrix_tensor 2 rows)"
    by (simp add: ensure_shape_N2) (simp add: matrix_tensor_def)
  have "update_state super_update_state self y_true (matrix_tensor 2 rows) sample_weight =
           (case super_update_state self y_true (positive_class_column rows) sample_weight of
              (self', r) \<Rightarrow> (self', map_option InSuper r))"
    by (simp add: update_state_def sh slice_column_N2 [OF assms, unfolded One_nat_def])
  then show ?thesis by (simp add: split_beta)
qed


theorem AUROC_update_state_refines_AUC_witness:
  "update_state (\<lambda>s yt yp sw. (s @ [(yt, yp, sw)], None :: unit option)) []
     \<lparr>shape = [2], data = [0, 1 :: nat]\<rparr> (matrix_tensor 2 [[5, 6], [7, 8 :: nat]])
     (None :: nat tensor option) =
   ([(\<lparr>shape = [2], data = [0, 1]\<rparr>, \<lparr>shape = [2], data = [6, 8]\<rparr>, None)], None)"
proof -
  have h: "\<forall>r\<in>set [[5, 6], [7, 8 :: nat]]. length r = 2" by simp
  from AUROC_update_state_refines_AUC
    [OF h, of "\<lambda>s yt yp sw. (s @ [(yt, yp, sw)], None :: unit option)" "[]"
       "\<lparr>shape = [2], data = [0, 1 :: nat]\<rparr>" "None :: nat tensor option" length]
  show ?thesis
    by (simp add: positive_class_column_def)
qed

text \<open>
  Claim C9. When the shape of the predictions is not \<open>[N, 2]\<close>, \<open>AUROC.update_state\<close>
  raises at its shape check and the state is the one it was given, whatever the parent's
  \<open>update_state\<close> is; when it is, the parent's \<open>update_state\<close> runs on the second column;
  and the raise at the shape check happens exactly when the shape is not \<open>[N, 2]\<close>.
\<close>

theorem AUROC_update_state_shape_check:
  "(\<not> (\<exists>n. shape y_pred = [n, 2]) \<longrightarrow>
      update_state super_update_state self y_true y_pred sample_weight =
        (self, Some (AtShapeCheck InvalidArgumentError)))
   \<and> ((\<exists>n. shape y_pred = [n, 2]) \<longrightarrow>
      update_state super_update_state self y_true y_pred sample_weight =
        (case super_update_state self y_true
                \<lparr>shape = [hd (shape y_pred)],
                 data = map (\<lambda>i. data y_pred ! (i * 2 + 1)) [0..<hd (shape y_pred)]\<rparr> sample_weight of
           (self', r) \<Rightarrow> (self', map_option InSuper r)))
   \<and> ((\<exists>e. snd (update_state super_update_state self y_true y_pred sample_weight) = Some (AtShapeCheck e))
        \<longleftrightarrow> \<not> (\<exists>n. shape y_pred = [n, 2]))"
  by (auto simp: update_state_def ensure_shape_N2 slice_column_def split_beta)

theorem AUROC_update_state_shape_check_witness:
  "update_state (\<lambda>s yt yp sw. (s @ [(yt, yp, sw)], None :: unit option)) []
     \<lparr>shape = [2], data = [0, 1 :: nat]\<rparr> \<lparr>shape = [2, 3], data = [5, 6, 7, 8, 9, 10 :: nat]\<rparr>
     (None :: nat tensor option) =
   ([], Some (AtShapeCheck InvalidArgumentError))"
  using AUROC_update_state_shape_check
    [of "\<lparr>shape = [2, 3], data = [5, 6, 7, 8, 9, 10 :: nat]\<rparr>"
        "\<lambda>s yt yp sw. (s @ [(yt, yp, sw)], None :: unit option)" "[]"
        "\<lparr>shape = [2], data = [0, 1 :: nat]\<rparr>" "None :: nat tensor option"]
  by simp

section \<open>Properties of the dataset adapters\<close>

lemma pct_80_bounds:
  assumes "0 \<le> n"
  shows "0 \<le> pct_to_abs_closest 80 n \<and> pct_to_abs_closest 80 n \<le> n"
proof -
  define q where "q = (80 * n) div 100"
  define r where "r = (80 * n) mod 100"
  have eq: "80 * n = 100 * q + r" unfolding q_def r_def by (rule mult_div_mod_eq [symmetric])
  have r: "0 \<le> r" "r < 100" by (simp_all add: r_def)
  from assms eq r have q0: "0 \<le> q" by arith
  from assms eq r have qn: "q \<le> n" by arith
  from assms eq r have q1: "50 \<le> r \<Longrightarrow> q + 1 \<le> n" by arith
  have "pct_to_abs_closest 80 n = (if r < 50 then q else if 50 < r then q + 1 else if even q then q else q + 1)"
    by (simp add: pct_to_abs_closest_def q_def r_def Let_def)
  with q0 qn q1 show ?thesis by auto
qed

lemma parse_train: "parse_split ''train[:80%]'' = Inr \<lparr>splitname = ''train'', from_bound = None, to_bound = Some 80, percent = True\<rparr>"
  by (simp add: parse_split_def parse_bound_def parse_nat_def is_digit_def digit_val_def)

lemma parse_valid: "parse_split ''train[80%:]'' = Inr \<lparr>splitname = ''train'', from_bound = Some 80, to_bound = None, percent = True\<rparr>"
  by (simp add: parse_split_def parse_bound_def parse_nat_def is_digit_def digit_val_def)

lemma parse_test: "parse_split ''validation'' = Inr \<lparr>splitname = ''validation'', from_bound = None, to_bound = None, percent = False\<rparr>"
  by (simp add: parse_split_def)

lemma read_train:
  assumes "raw ''train'' = Some xs"
  shows "read_split ''train[:80%]'' raw = Inr (take (nat (pct_to_abs_closest 80 (int (length xs)))) xs)"
  using assms pct_80_bounds [of "int (length xs)"]
  by (simp add: read_split_def parse_train rel_to_abs_def)

lemma read_valid:
  assumes "raw ''train'' = Some xs"
  shows "read_split ''train[80%:]'' raw = Inr (drop (nat (pct_to_abs_closest 80 (int (length xs)))) xs)"
  using assms pct_80_bounds [of "int (length xs)"]
  by (simp add: read_split_def parse_valid rel_to_abs_def Let_def)

lemma read_test:
  assumes "raw ''validation'' = Some ys"
  shows "read_split ''validation'' raw = Inr ys"
  using assms by (simp add: read_split_def parse_test rel_to_abs_def)


text \<open>
  Claim C7. Both adapters carry the split specifications \<open>train[:80%]\<close>, \<open>train[80%:]\<close>
  and \<open>validation\<close>. Read off any built dataset, the first is the raw train split up to a
  boundary \<open>b\<close> and the second is the raw train split from \<open>b\<close> on, so the two are
  disjoint and cover it; the third is the raw validation split.
\<close>

theorem dataset_splits_partition:
  assumes d: "d = CoLADataset \<or> d = MRPCDataset"
    and raw: "raw ''train'' = Some xs" "raw ''validation'' = Some ys"
    and b: "b = nat (pct_to_abs_closest 80 (int (length xs)))"
  shows "split_train d = ''train[:80%]'' \<and> split_valid d = ''train[80%:]'' \<and> split_test d = ''validation''
    \<and> read_split (split_train d) raw = Inr (take b xs)
    \<and> read_split (split_valid d) raw = Inr (drop b xs)
    \<and> read_split (split_test d) raw = Inr ys
    \<and> take b xs @ drop b xs = xs
    \<and> (distinct xs \<longrightarrow> set (take b xs) \<inter> set (drop b xs) = {})"
proof -
  from d have s: "split_train d = ''train[:80%]''" "split_valid d = ''train[80%:]''" "split_test d = ''validation''"
    by (auto simp: CoLADataset_def MRPCDataset_def)
  have dis: "distinct xs \<longrightarrow> set (take b xs) \<inter> set (drop b xs) = {}"
    by (simp add: set_take_disj_set_drop_if_distinct)
  show ?thesis
    unfolding s b using dis [unfolded b]
    by (simp add: read_train [of raw xs, OF raw(1)] read_valid [of raw xs, OF raw(1)]
        read_test [of raw ys, OF raw(2)])
qed


theorem dataset_splits_partition_witness:
  "read_split (split_train CoLADataset) [''train'' \<mapsto> [1, 2, 3, 4, 5, 6, 7 :: nat], ''validation'' \<mapsto> [8, 9]]
     = Inr [1, 2, 3, 4, 5, 6]
   \<and> read_split (split_valid CoLADataset) [''train'' \<mapsto> [1, 2, 3, 4, 5, 6, 7 :: nat], ''validation'' \<mapsto> [8, 9]]
     = Inr [7]
   \<and> read_split (split_test CoLADataset) [''train'' \<mapsto> [1, 2, 3, 4, 5, 6, 7 :: nat], ''validation'' \<mapsto> [8, 9]]
     = Inr [8, 9]"
  using dataset_splits_partition
    [of CoLADataset "[''train'' \<mapsto> [1, 2, 3, 4, 5, 6, 7 :: nat], ''validation'' \<mapsto> [8, 9]]"
        "[1, 2, 3, 4, 5, 6, 7]" "[8, 9]" 6]
  by (simp add: pct_to_abs_closest_def CoLADataset_def)

section \<open>The decoder raises \<open>JSONDecodeError\<close> only\<close>


















section \<open>A value stays the first value when a line follows\<close>
























section \<open>Properties of the loading loop\<close>









section \<open>Properties of normalizing and exploding\<close>

lemma map_of_dict_set_same: "map_of (dict_set d k v) k = Some v"
  by (induction d) auto

lemma filter_dict_set: "filter (\<lambda>(k', v'). k' \<noteq> k) (dict_set d k v) = filter (\<lambda>(k', v'). k' \<noteq> k) d"
  by (induction d) auto

lemma map_of_filter_neq: "map_of (filter (\<lambda>(k', v'). k' \<noteq> k) d) k = None"
  by (induction d) auto

lemma normalize_all_records:
  "\<forall>r\<in>set rs. is_dict r \<Longrightarrow> normalize_all (map Some rs) = Inr (map record_fields rs)"
proof (induction rs)
  case Nil
  then show ?case by simp
next
  case (Cons r rs)
  then obtain d where "r = JDict d" by (cases r) (auto simp: is_dict_def)
  with Cons show ?case by (simp add: simple_json_normalize_def record_fields_def)
qed

lemma columns_foldl:
  "set (foldl (\<lambda>cols r. cols @ filter (\<lambda>k. k \<notin> set cols) (remdups (map fst r))) acc rs)
     = set acc \<union> (\<Union>r\<in>set rs. fst ` set r)"
  by (induction rs arbitrary: acc) auto

lemma columns_DataFrame: "set (columns (DataFrame rs)) = (\<Union>r\<in>set rs. fst ` set r)"
  by (simp add: DataFrame_def columns_foldl)

lemma explode_row:
  assumes "wf_record r"
  shows "(case map_of (record_fields r) ''results'' of
            Some (JList []) \<Rightarrow> [filter (\<lambda>(k, v). k \<noteq> ''results'') (record_fields r)]
          | Some (JList es) \<Rightarrow> map (\<lambda>e. dict_set (record_fields r) ''results'' e) es
          | _ \<Rightarrow> [record_fields r])
         = map (\<lambda>c. case c of None \<Rightarrow> carried_fields r
                      | Some e \<Rightarrow> dict_set (record_fields r) ''results'' e) (cells r)"
proof -
  from assms have m: "map_of (record_fields r) ''results'' = Some (JList (results_list r))"
    by (simp add: wf_record_def)
  show ?thesis
    by (cases "results_list r") (simp_all add: m cells_def carried_fields_def)
qed

lemma explode_records:
  assumes wf: "\<forall>r\<in>set rs. wf_record r" and ne: "rs \<noteq> []"
  shows "explode (DataFrame (map record_fields rs)) ''results'' =
         Inr \<lparr>columns = columns (DataFrame (map record_fields rs)),
              frame_rows = map (\<lambda>(r, c). case c of None \<Rightarrow> carried_fields r
                                  | Some e \<Rightarrow> dict_set (record_fields r) ''results'' e) (exploded rs)\<rparr>"
proof -
  from ne obtain r0 where r0: "r0 \<in> set rs" by (cases rs) auto
  with wf have "map_of (record_fields r0) ''results'' = Some (JList (results_list r0))"
    by (simp add: wf_record_def)
  then have "(''results'', JList (results_list r0)) \<in> set (record_fields r0)"
    by (rule map_of_SomeD)
  then have "''results'' \<in> fst ` set (record_fields r0)" by force
  with r0 have col: "''results'' \<in> set (columns (DataFrame (map record_fields rs)))"
    by (auto simp: columns_DataFrame)
  have "concat (map (\<lambda>r. case map_of r ''results'' of
                                  Some (JList []) \<Rightarrow> [filter (\<lambda>(k, v). k \<noteq> ''results'') r]
                                | Some (JList es) \<Rightarrow> map (\<lambda>e. dict_set r ''results'' e) es
                                | _ \<Rightarrow> [r]) (map record_fields rs))
      = map (\<lambda>(r, c). case c of None \<Rightarrow> carried_fields r
                                  | Some e \<Rightarrow> dict_set (record_fields r) ''results'' e) (exploded rs)"
    using wf
  proof (induction rs)
    case Nil
    then show ?case by (simp add: exploded_def)
  next
    case (Cons r rs)
    then have "wf_record r" by simp
    from explode_row [OF this] Cons show ?case
      by (simp add: exploded_def comp_def)
  qed
  with col show ?thesis
    by (simp add: explode_def DataFrame_def)
qed


lemma exploded_cell:
  assumes "\<forall>r\<in>set rs. wf_record r" and "(r, Some e) \<in> set (exploded rs)"
  shows "is_dict e"
  using assms
  by (auto simp: exploded_def cells_def wf_record_def list_all_iff split: if_splits)

lemma normalize_all_cells:
  assumes "\<forall>c\<in>set cs. case c of None \<Rightarrow> True | Some e \<Rightarrow> is_dict e"
  shows "normalize_all cs = Inr (map (\<lambda>c. case c of None \<Rightarrow> [] | Some e \<Rightarrow> record_fields e) cs)"
  using assms
proof (induction cs)
  case Nil
  then show ?case by simp
next
  case (Cons c cs)
  show ?case
  proof (cases c)
    case None
    with Cons show ?thesis by (simp add: simple_json_normalize_def)
  next
    case (Some e)
    with Cons.prems have "is_dict e" by simp
    then obtain d where "e = JDict d" by (cases e) (auto simp: is_dict_def)
    with Some Cons show ?thesis by (simp add: simple_json_normalize_def record_fields_def)
  qed
qed

lemma concat_axis1_rows:
  assumes "length (frame_rows a) = length (frame_rows b)"
  shows "frame_rows (concat_axis1 a b) = map2 (@) (frame_rows a) (frame_rows b)"
  using assms
  by (auto simp: concat_axis1_def intro!: nth_equalityI)

lemma exploded_rows:
  "map (\<lambda>(r, c). carried_fields r @ map (\<lambda>(k, v). (''results.'' @ k, v))
                                        (case c of None \<Rightarrow> [] | Some e \<Rightarrow> record_fields e))
       (exploded rs)
   = concat (map (\<lambda>r. if results_list r = [] then [carried_fields r] else record_rows r) rs)"
  by (induction rs) (auto simp: exploded_def cells_def record_rows_def comp_def)


text \<open>
  Claim C2, as amended. For loaded records that are objects whose \<open>results\<close> field is a
  list of objects, the frame has, for a record with a non-empty list, one row per element:
  the record's flattened fields other than \<open>results\<close> (its \<open>args.*\<close> fields), then the
  element's flattened fields prefixed with \<open>results.\<close>; and for a record with an empty
  list one row with the record's fields only.
\<close>

theorem results_frame_rows:
  assumes wf: "\<forall>r\<in>set rs. wf_record r" and ne: "rs \<noteq> []"
  shows "map_sum id frame_rows (results_frame rs) =
         Inr (concat (map (\<lambda>r. if results_list r = [] then [carried_fields r] else record_rows r) rs))"
proof -
  define P where "P = exploded rs"
  define row1 where "row1 = (\<lambda>(r, c :: json option). case c of None \<Rightarrow> carried_fields r
                                  | Some e \<Rightarrow> dict_set (record_fields r) ''results'' e)"
  from wf have dicts: "\<forall>r\<in>set rs. is_dict r" by (simp add: wf_record_def)
  have n0: "json_normalize (map Some rs) = Inr (DataFrame (map record_fields rs))"
    by (simp add: json_normalize_def normalize_all_records [OF dicts])
  have ex: "explode (DataFrame (map record_fields rs)) ''results'' =
         Inr \<lparr>columns = columns (DataFrame (map record_fields rs)), frame_rows = map row1 P\<rparr>"
    unfolding row1_def P_def by (rule explode_records [OF wf ne])
  have col: "''results'' \<in> set (columns (DataFrame (map record_fields rs)))"
    using ex by (auto simp: explode_def split: if_splits)
  have ser: "map (\<lambda>r. map_of r ''results'') (map row1 P) = map snd P"
    by (auto simp: row1_def carried_fields_def map_of_filter_neq map_of_dict_set_same
        split: option.splits)
  have rest: "map (filter (\<lambda>(k, v). k \<noteq> ''results'')) (map row1 P) = map (\<lambda>(r, c). carried_fields r) P"
    by (auto simp: row1_def carried_fields_def filter_dict_set split: option.splits)
  have pp: "pop \<lparr>columns = columns (DataFrame (map record_fields rs)), frame_rows = map row1 P\<rparr> ''results''
      = Inr (map snd P, \<lparr>columns = removeAll ''results'' (columns (DataFrame (map record_fields rs))),
                         frame_rows = map (\<lambda>(r, c). carried_fields r) P\<rparr>)"
    using col by (simp add: pop_def ser rest del: map_map)
  have cellsok: "\<forall>c\<in>set (map snd P). case c of None \<Rightarrow> True | Some e \<Rightarrow> is_dict e"
    using exploded_cell [OF wf] by (auto simp: P_def split: option.splits)
  have n1: "json_normalize (map snd P) =
      Inr (DataFrame (map (\<lambda>c. case c of None \<Rightarrow> [] | Some e \<Rightarrow> record_fields e) (map snd P)))"
    by (simp add: json_normalize_def normalize_all_cells [OF cellsok] del: map_map)
  have "map_sum id frame_rows (results_frame rs) =
      Inr (map2 (@) (map (\<lambda>(r, c). carried_fields r) P)
             (map (map (\<lambda>(k, v). (''results.'' @ k, v)))
                (map (\<lambda>c. case c of None \<Rightarrow> [] | Some e \<Rightarrow> record_fields e) (map snd P))))"
  proof -
    have "results_frame rs =
        Inr (concat_axis1
              \<lparr>columns = removeAll ''results'' (columns (DataFrame (map record_fields rs))),
               frame_rows = map (\<lambda>(r, c). carried_fields r) P\<rparr>
              (add_prefix ''results.''
                (DataFrame (map (\<lambda>c. case c of None \<Rightarrow> [] | Some e \<Rightarrow> record_fields e) (map snd P)))))"
      by (simp add: results_frame_def n0 ex pp n1 del: map_map)
    then show ?thesis
      by (simp add: concat_axis1_rows add_prefix_def DataFrame_def del: map_map)
  qed
  also have "map2 (@) (map (\<lambda>(r, c). carried_fields r) P)
             (map (map (\<lambda>(k, v). (''results.'' @ k, v)))
                (map (\<lambda>c. case c of None \<Rightarrow> [] | Some e \<Rightarrow> record_fields e) (map snd P)))
      = map (\<lambda>(r, c). carried_fields r @ map (\<lambda>(k, v). (''results.'' @ k, v))
                                        (case c of None \<Rightarrow> [] | Some e \<Rightarrow> record_fields e)) P"
    by (induction P) auto
  also have "\<dots> = concat (map (\<lambda>r. if results_list r = [] then [carried_fields r] else record_rows r) rs)"
    unfolding P_def by (rule exploded_rows)
  finally show ?thesis .
qed


theorem results_frame_rows_witness:
  "map_sum id frame_rows
     (results_frame
        [JDict [(''args'', JDict [(''seed'', JInt 0), (''model'', JString ''roberta-sb'')]),
                (''results'', JList [JDict [(''masking_ratio'', JInt 0), (''loss'', JInt 2)],
                                     JDict [(''masking_ratio'', JInt 10)]])]]) =
   Inr [[(''args.seed'', JInt 0), (''args.model'', JString ''roberta-sb''),
         (''results.masking_ratio'', JInt 0), (''results.loss'', JInt 2)],
        [(''args.seed'', JInt 0), (''args.model'', JString ''roberta-sb''),
         (''results.masking_ratio'', JInt 10)]]"
proof -
  have h: "\<forall>r\<in>set [JDict [(''args'', JDict [(''seed'', JInt 0), (''model'', JString ''roberta-sb'')]),
                (''results'', JList [JDict [(''masking_ratio'', JInt 0), (''loss'', JInt 2)],
                                     JDict [(''masking_ratio'', JInt 10)]])]]. wf_record r"
    by (simp add: wf_record_def record_fields_def results_list_def is_dict_def
        normalise_json_ordered_def)
  from results_frame_rows [OF h] show ?thesis
    by (simp add: record_rows_def carried_fields_def record_fields_def results_list_def
        is_dict_def normalise_json_ordered_def)
qed

text \<open>
  The claim as stated fails: a record whose results list has no element still gives a row.
\<close>

theorem empty_results_counterexample:
  "results_list (JDict [(''args'', JDict [(''seed'', JInt 1)]), (''results'', JList [])]) = []
   \<and> map_sum id frame_rows
       (results_frame [JDict [(''args'', JDict [(''seed'', JInt 1)]), (''results'', JList [])]]) =
     Inr [[(''args.seed'', JInt 1)]]"
  by code_simp

section \<open>Properties of the command lines\<close>



lemma in_choices_positional:
  "v \<in> set [''preprocess'', ''plot'', ''both'', ''primary'', ''loss'', ''accuracy''] \<Longrightarrow> parse_optional p v = Inr Positional"
  by (auto simp: parse_optional_def)































section \<open>Properties of the plot stage\<close>

lemma plot_categories_agree:
  assumes "\<And>c. c \<in> set cs \<Longrightarrow> nrows (query c df) \<noteq> 0 \<Longrightarrow> cp c (query c df) = cp' c (query c df)"
  shows "plot_categories query nrows cp stem df cs out = plot_categories query nrows cp' stem df cs out"
  using assms
proof (induction cs arbitrary: out)
  case Nil
  then show ?case by simp
next
  case (Cons c cs)
  show ?case
  proof (cases "nrows (query c df) = 0")
    case True
    with Cons show ?thesis by (simp add: Let_def)
  next
    case False
    with Cons.prems have "cp c (query c df) = cp' c (query c df)" by simp
    with False Cons show ?thesis by (simp add: Let_def split: option.splits)
  qed
qed

lemma plot_categories_events:
  assumes "\<And>c. c \<in> set cs \<Longrightarrow> nrows (query c df) \<noteq> 0 \<Longrightarrow> cp c (query c df) = None"
  shows "plot_categories query nrows cp stem df cs out =
    (None, out @ concat (map (\<lambda>c. if nrows (query c df) = 0 then [Printed (skip_message c)]
                                   else [Saved (stem @ c @ ''.pdf''), Saved (stem @ c @ ''.png'')]) cs))"
  using assms
proof (induction cs arbitrary: out)
  case Nil
  then show ?case by simp
next
  case (Cons c cs)
  show ?case
  proof (cases "nrows (query c df) = 0")
    case True
    with Cons show ?thesis by (simp add: Let_def)
  next
    case False
    with Cons.prems have "cp c (query c df) = None" by simp
    with False Cons show ?thesis by (simp add: Let_def)
  qed
qed


text \<open>
  Claim C6. For a model category whose queried subset has no rows, the plot stage of
  either script is the same whatever the confidence-interval and plot step would do on
  that category, so the step is not run for it and cannot fail there; and when the step
  does not raise on the categories that have rows, the stage ends normally, having printed
  the line \<^verbatim>\<open>Skipping model category "<category>", no observations.\<close> for each category
  without rows and saved the two plots for each other one.
\<close>

theorem plot_stage_skips_empty_category:
  assumes c: "c = ''masking-ratio'' \<or> c = ''size''"
    and empty: "nrows (query c df) = 0"
  shows "(\<forall>step. faithfulness_plot_stage query nrows (confint_plot(c := step)) dir df =
                  faithfulness_plot_stage query nrows confint_plot dir df)
       \<and> (\<forall>step. unmasked_performance_plot_stage query nrows (confint_plot(c := step)) dir df =
                  unmasked_performance_plot_stage query nrows confint_plot dir df)
       \<and> ((\<forall>c'. nrows (query c' df) \<noteq> 0 \<longrightarrow> confint_plot c' (query c' df) = None) \<longrightarrow>
            faithfulness_plot_stage query nrows confint_plot dir df =
              (None, concat (map (\<lambda>c'. if nrows (query c' df) = 0 then [Printed (''Skipping model category '' @ [CHR 0x22] @ c' @ [CHR 0x22] @
                         '', no observations.'')]
                     else [Saved (dir @ ''/plots/faithfulness_m-'' @ c' @ ''.pdf''),
                           Saved (dir @ ''/plots/faithfulness_m-'' @ c' @ ''.png'')])
                   [''masking-ratio'', ''size'']))
          \<and> unmasked_performance_plot_stage query nrows confint_plot dir df =
              (None, concat (map (\<lambda>c'. if nrows (query c' df) = 0 then [Printed (''Skipping model category '' @ [CHR 0x22] @ c' @ [CHR 0x22] @
                         '', no observations.'')]
                     else [Saved (dir @ ''/plots/unmasked_performance_m-'' @ c' @ ''.pdf''),
                           Saved (dir @ ''/plots/unmasked_performance_m-'' @ c' @ ''.png'')])
                   [''masking-ratio'', ''size''])))"
proof (intro conjI allI impI)
  fix step
  show "faithfulness_plot_stage query nrows (confint_plot(c := step)) dir df =
        faithfulness_plot_stage query nrows confint_plot dir df"
    unfolding faithfulness_plot_stage_def using empty
    by (intro plot_categories_agree) auto
  show "unmasked_performance_plot_stage query nrows (confint_plot(c := step)) dir df =
        unmasked_performance_plot_stage query nrows confint_plot dir df"
    unfolding unmasked_performance_plot_stage_def using empty
    by (intro plot_categories_agree) auto
next
  assume ok: "\<forall>c'. nrows (query c' df) \<noteq> 0 \<longrightarrow> confint_plot c' (query c' df) = None"
  show "faithfulness_plot_stage query nrows confint_plot dir df =
              (None, concat (map (\<lambda>c'. if nrows (query c' df) = 0 then [Printed (''Skipping model category '' @ [CHR 0x22] @ c' @ [CHR 0x22] @
                         '', no observations.'')]
                     else [Saved (dir @ ''/plots/faithfulness_m-'' @ c' @ ''.pdf''),
                           Saved (dir @ ''/plots/faithfulness_m-'' @ c' @ ''.png'')])
                   [''masking-ratio'', ''size'']))"
    unfolding faithfulness_plot_stage_def
    using plot_categories_events [of "[''masking-ratio'', ''size'']" nrows query df confint_plot
        "dir @ ''/plots/faithfulness_m-''" "[]"] ok
    by (simp add: skip_message_def)
  show "unmasked_performance_plot_stage query nrows confint_plot dir df =
              (None, concat (map (\<lambda>c'. if nrows (query c' df) = 0 then [Printed (''Skipping model category '' @ [CHR 0x22] @ c' @ [CHR 0x22] @
                         '', no observations.'')]
                     else [Saved (dir @ ''/plots/unmasked_performance_m-'' @ c' @ ''.pdf''),
                           Saved (dir @ ''/plots/unmasked_performance_m-'' @ c' @ ''.png'')])
                   [''masking-ratio'', ''size'']))"
    unfolding unmasked_performance_plot_stage_def
    using plot_categories_events [of "[''masking-ratio'', ''size'']" nrows query df confint_plot
        "dir @ ''/plots/unmasked_performance_m-''" "[]"] ok
    by (simp add: skip_message_def)
qed


theorem plot_stage_skips_empty_category_witness:
  \<open>faithfulness_plot_stage (\<lambda>c df. filter (\<lambda>r. r = c) df) length
     ((\<lambda>c df. None)(''masking-ratio'' := (\<lambda>df. Some ValueError))) ''/repo'' [''size'', ''size''] =
   (None, [Printed ''Skipping model category "masking-ratio", no observations.'',
           Saved ''/repo/plots/faithfulness_m-size.pdf'', Saved ''/repo/plots/faithfulness_m-size.png''])
   \<and> unmasked_performance_plot_stage (\<lambda>c df. filter (\<lambda>r. r = c) df) length
     ((\<lambda>c df. None)(''masking-ratio'' := (\<lambda>df. Some ValueError))) ''/repo'' [''size'', ''size''] =
   (None, [Printed ''Skipping model category "masking-ratio", no observations.'',
           Saved ''/repo/plots/unmasked_performance_m-size.pdf'',
           Saved ''/repo/plots/unmasked_performance_m-size.png''])\<close>
proof -
  have e: "length (filter (\<lambda>r. r = ''masking-ratio'') [''size'', ''size'']) = 0" by simp
  have c: "''masking-ratio'' = ''masking-ratio'' \<or> ''masking-ratio'' = ''size''" by simp
  from plot_stage_skips_empty_category
    [of "''masking-ratio''" length "\<lambda>c df. filter (\<lambda>r. r = c) df" "[''size'', ''size'']"
        "\<lambda>c df. None" "''/repo''", OF c e]
  show ?thesis by simp
qed

end
